theory Spec2Isabelle
  imports Main "HOL-Library.Word"
begin

section \<open>Errors and cancellation tokens\<close>

text \<open>
  A Go \<open>error\<close> value. \<open>errors.New(msg)\<close> is \<open>errors_New msg\<close>; the two errors a
  \<open>context.Context\<close> of the standard library reports are \<open>context.Canceled\<close> and
  \<open>context.DeadlineExceeded\<close>. A result of Go type \<open>error\<close> is an \<open>error option\<close>,
  \<open>None\<close> being \<open>nil\<close>.
\<close>

datatype error = errors_New string | context_Canceled | context_DeadlineExceeded

text \<open>
  The functions of \<open>utils.go\<close> ask two things of their \<open>context.Context\<close>: the value of
  \<open>ctx.Err()\<close>, and whether \<open><-ctx.Done()\<close> is the case that a \<open>select\<close> against a timer
  channel runs. A \<open>Context\<close> records the answers one call gets: \<open>Err\<close> is what
  \<open>ctx.Err()\<close> returns during the call, \<open>Done\<close> holds when the \<open>select\<close> of the call runs
  its \<open>case <-ctx.Done()\<close>. Which case of a \<open>select\<close> runs is decided by the Go runtime and
  by the clock, so it is an input of the model.
\<close>

record Context =
  Err :: "error option"
  Done :: bool

text \<open>A token that is never canceled, such as \<open>context.Background()\<close>.\<close>

definition Background :: Context where
  "Background = \<lparr>Err = None, Done = False\<rparr>"

text \<open>Go's \<open>int\<close> (64 bits on the platforms the program is built for); \<open>+\<close> and \<open>-\<close> wrap.\<close>

type_synonym go_int = "64 word"

text \<open>
  \<open>time.Duration\<close> is an \<open>int64\<close> count of nanoseconds. The sleepers only compare and
  copy durations (all arithmetic on them is inside the backoff algorithm, which is a
  parameter), so a duration is modelled as an \<open>int\<close>.
\<close>

type_synonym Duration = int

section \<open>Sleepers\<close>

text \<open>
  \<open>type Sleeper func(context.Context) error\<close>. A sleeper is a closure over mutable
  variables; in the model the captured variables are a state \<open>'s\<close> that a call takes and
  returns.
\<close>

type_synonym 's Sleeper = "Context \<Rightarrow> 's \<Rightarrow> error option \<times> 's"

text \<open>
  \<open>CountSleeper(max)\<close>, lines 159-172. The captured variable is \<open>count\<close>, which
  \<open>CountSleeper\<close> initialises to \<open>0\<close>.
\<close>

definition CountSleeper :: "go_int \<Rightarrow> go_int Sleeper" where
  "CountSleeper max' ctx count =
     (if Err ctx \<noteq> None then (Err ctx, count)
      else if count = max' then (Some (errors_New ''max sleep count''), count)
      else (None, count + 1))"

text \<open>
  Successive calls of one closure: the \<open>i\<close>-th call gets the \<open>i\<close>-th observation of the
  token, the state is threaded through, and the results are collected in order.
\<close>

fun calls :: "('c \<Rightarrow> 's \<Rightarrow> 'r \<times> 's) \<Rightarrow> 'c list \<Rightarrow> 's \<Rightarrow> 'r list \<times> 's" where
  "calls f [] s = ([], s)"
| "calls f (c # cs) s =
     (case f c s of (r, s') \<Rightarrow>
        (case calls f cs s' of (rs, s'') \<Rightarrow> (r # rs, s'')))"

text \<open>
  The backoff algorithm is a Go function value \<open>func(time.Duration) time.Duration\<close>. It
  need not be pure: \<open>DefaultBackoff\<close> (lines 175-178) multiplies the interval by
  \<open>2 + (mr.Float64()-0.5)*0.2\<close>, a draw from the global random source, in floating
  point. The model takes the algorithm as a parameter that reads and writes a state
  \<open>'g\<close> of its own (the random source for \<open>DefaultBackoff\<close>; \<open>unit\<close> for a pure
  function); \<open>BackoffSleeper\<close> replaces a \<open>nil\<close> algorithm by \<open>DefaultBackoff\<close>, which is
  one more value of this parameter.
\<close>

type_synonym 'g Algorithm = "Duration \<Rightarrow> 'g \<Rightarrow> Duration \<times> 'g"

text \<open>
  The variables a backoff sleeper works on: \<open>init\<close>, the parameter of \<open>BackoffSleeper\<close>
  that the closure captures and overwrites (the current interval), and the state of the
  algorithm.
\<close>

record 'g Backoff =
  init :: Duration
  source :: 'g

text \<open>Lines 195-200: the interval of this call.\<close>

definition interval_of :: "Duration \<Rightarrow> 'g Algorithm \<Rightarrow> 'g Backoff \<Rightarrow> Duration \<times> 'g" where
  "interval_of maxInterval algorithm st =
     (if init st < maxInterval then algorithm (init st) (source st)
      else (maxInterval, source st))"

text \<open>
  The closure \<open>BackoffSleeper(init, maxInterval, algorithm)\<close> returns, lines 189-213.
  Beside the error and the new state, the result holds the duration the call gave to
  \<open>time.NewTimer\<close>: \<open>None\<close> when it returned without creating a timer.
\<close>

definition BackoffSleeper ::
  "Duration \<Rightarrow> 'g Algorithm \<Rightarrow> Context \<Rightarrow> 'g Backoff \<Rightarrow>
     (Duration option \<times> error option) \<times> 'g Backoff" where
  "BackoffSleeper maxInterval algorithm ctx st =
     (if maxInterval \<le> 0 then ((None, None), st)
      else
        (case interval_of maxInterval algorithm st of
           (interval, g) \<Rightarrow>
             if Done ctx then ((Some interval, Err ctx), st\<lparr>source := g\<rparr>)
             else ((Some interval, None), \<lparr>init = interval, source = g\<rparr>)))"

text \<open>The durations of the timers in a list of results, in order.\<close>

fun waited :: "(Duration option \<times> error option) list \<Rightarrow> Duration list" where
  "waited [] = []"
| "waited ((None, e) # rs) = waited rs"
| "waited ((Some d, e) # rs) = d # waited rs"

text \<open>
  Three pure algorithms: one that doubles the interval (the factor \<open>DefaultBackoff\<close>
  draws around), one that doubles it up to a bound of its own, and one that halves it,
  truncating towards zero as Go's \<open>/\<close> does.
\<close>

definition doubling :: "unit Algorithm" where
  "doubling d g = (2 * d, g)"

definition doubling_upto :: "Duration \<Rightarrow> unit Algorithm" where
  "doubling_upto m d g = (min (2 * d) m, g)"

definition halving :: "unit Algorithm" where
  "halving d g = (if 0 \<le> d then d div 2 else - ((- d) div 2), g)"

section \<open>Retry\<close>

text \<open>
  \<open>Retry(ctx, s, fn)\<close>, lines 275-286. The action \<open>fn\<close> is a closure with a state \<open>'f\<close>
  of its own. The loop has no bound, so \<open>Retry\<close> is a partial function: \<open>None\<close> is a run
  that never returns. A result holds the returned error and the final states of the
  sleeper and of the action. The one \<open>ctx\<close> the loop hands to every call of the sleeper
  is one \<open>Context\<close>: the calls of a run observe the token in the same condition.
\<close>

type_synonym 'f Action = "'f \<Rightarrow> (bool \<times> error option) \<times> 'f"

partial_function (option) Retry ::
  "Context \<Rightarrow> 's Sleeper \<Rightarrow> 'f Action \<Rightarrow> 's \<Rightarrow> 'f \<Rightarrow> (error option \<times> 's \<times> 'f) option" where
  "Retry ctx s fn st f =
     (case fn f of
        ((stop, err), f') \<Rightarrow>
          if stop then Some (err, st, f')
          else
            (case s ctx st of
               (err', st') \<Rightarrow>
                 if err' \<noteq> None then Some (err', st', f')
                 else Retry ctx s fn st' f'))"

text \<open>
  An action that counts its invocations and returns \<open>(false, nil)\<close> on the first two and
  \<open>(true, nil)\<close> from the third on; and a wrapper that counts the calls of a sleeper.
\<close>

definition stop_on_third :: "nat Action" where
  "stop_on_third k = ((2 \<le> k, None), k + 1)"

definition counting :: "'s Sleeper \<Rightarrow> (nat \<times> 's) Sleeper" where
  "counting s ctx st = (case s ctx (snd st) of (e, st') \<Rightarrow> (e, (fst st + 1, st')))"

section \<open>IdleCounter\<close>

text \<open>
  The \<open>*time.Timer\<close> of an \<open>IdleCounter\<close>: stopped, armed for a duration, or expired
  (it has fired). \<open>Stop\<close> gives \<open>Stopped\<close>, \<open>Reset(d)\<close> gives \<open>Armed d\<close>.
\<close>

datatype Timer = Stopped | Armed Duration | Expired

fun armed :: "Timer \<Rightarrow> bool" where
  "armed (Armed d) = True"
| "armed Stopped = False"
| "armed Expired = False"

text \<open>
  The struct of lines 217-222. The mutex is not a field of the model: \<open>Add\<close>, \<open>Done\<close>
  and the first part of \<open>Wait\<close> hold it from beginning to end, so each is one atomic step.
\<close>

record IdleCounter =
  job :: go_int
  duration :: Duration
  tmr :: Timer

text \<open>Lines 225-234: the timer is created and stopped at once.\<close>

definition NewIdleCounter :: "Duration \<Rightarrow> IdleCounter" where
  "NewIdleCounter d = \<lparr>job = 0, duration = d, tmr = Stopped\<rparr>"

text \<open>Lines 237-243.\<close>

definition IdleCounter_Add :: "IdleCounter \<Rightarrow> IdleCounter" where
  "IdleCounter_Add de = (let de1 = de\<lparr>tmr := Stopped\<rparr> in de1\<lparr>job := job de1 + 1\<rparr>)"

text \<open>Lines 246-257. \<open>Inl msg\<close> is \<open>panic(msg)\<close>.\<close>

definition IdleCounter_Done :: "IdleCounter \<Rightarrow> string + IdleCounter" where
  "IdleCounter_Done de =
     (let de1 = de\<lparr>job := job de - 1\<rparr>;
          de2 = (if job de1 = 0 then de1\<lparr>tmr := Armed (duration de1)\<rparr> else de1)
      in if job de2 <s 0 then Inl ''all jobs are already done'' else Inr de2)"

text \<open>
  \<open>Wait\<close>, lines 260-272, has two parts: the locked part, which arms the timer when no
  job is open, and the \<open>select\<close>. The \<open>select\<close> changes the counter only in its
  \<open>case <-ctx.Done()\<close>, which stops the timer; its \<open>case <-de.tmr.C\<close> runs after the timer
  has fired, which is a step of the clock.
\<close>

definition Wait_locked :: "IdleCounter \<Rightarrow> IdleCounter" where
  "Wait_locked de = (if job de = 0 then de\<lparr>tmr := Armed (duration de)\<rparr> else de)"

definition Wait_canceled :: "IdleCounter \<Rightarrow> IdleCounter" where
  "Wait_canceled de = de\<lparr>tmr := Stopped\<rparr>"

definition timer_fires :: "IdleCounter \<Rightarrow> IdleCounter option" where
  "timer_fires de = (case tmr de of Armed d \<Rightarrow> Some (de\<lparr>tmr := Expired\<rparr>) | _ \<Rightarrow> None)"

text \<open>
  \<open>Wait\<close> run by itself, with no other goroutine between its two parts. The Go method
  has no result, so the model returns the counter only. \<open>None\<close> is a \<open>Wait\<close> that blocks
  for ever: the token never fires and the timer is not armed.
\<close>

definition IdleCounter_Wait :: "Context \<Rightarrow> IdleCounter \<Rightarrow> IdleCounter option" where
  "IdleCounter_Wait ctx de =
     (let de1 = Wait_locked de
      in if Done ctx then Some (Wait_canceled de1) else timer_fires de1)"

text \<open>
  The atomic steps that goroutines sharing one counter can take, and the states they
  lead to. Every order of steps is admitted, also a canceled \<open>select\<close> with no \<open>Wait\<close>
  before it, so the states of \<open>run\<close> include every state the program reaches. A timer
  that is not armed does not fire: the step leaves the counter as it is. A panic ends
  the run.
\<close>

datatype event = E_Add | E_Done | E_Wait_locked | E_Wait_canceled | E_timer_fires

fun step :: "event \<Rightarrow> IdleCounter \<Rightarrow> string + IdleCounter" where
  "step E_Add de = Inr (IdleCounter_Add de)"
| "step E_Done de = IdleCounter_Done de"
| "step E_Wait_locked de = Inr (Wait_locked de)"
| "step E_Wait_canceled de = Inr (Wait_canceled de)"
| "step E_timer_fires de = Inr (case timer_fires de of Some de' \<Rightarrow> de' | None \<Rightarrow> de)"

fun run :: "event list \<Rightarrow> IdleCounter \<Rightarrow> string + IdleCounter" where
  "run [] de = Inr de"
| "run (e # es) de = (case step e de of Inl msg \<Rightarrow> Inl msg | Inr de' \<Rightarrow> run es de')"

section \<open>Properties of the count-bounded sleeper\<close>

lemma calls_append:
  "calls f (xs @ ys) s =
     (case calls f xs s of (rs, s') \<Rightarrow>
        (case calls f ys s' of (rs', s'') \<Rightarrow> (rs @ rs', s'')))"
  by (induction xs arbitrary: s) (auto split: prod.splits)

lemma CountSleeper_live_below:
  "unat count < unat max' \<Longrightarrow> CountSleeper max' Background count = (None, count + 1)"
  by (auto simp: CountSleeper_def Background_def)

lemma unat_succ_below:
  fixes c m :: go_int
  assumes "unat c < unat m"
  shows "unat (c + 1) = Suc (unat c)"
proof -
  have "unat m < 2 ^ 64"
    using unsigned_less [of m] by simp
  with assms have "unat c + 1 < 2 ^ 64"
    by simp
  then show ?thesis
    by (simp add: unat_word_ariths)
qed

lemma CountSleeper_run:
  "unat c + k \<le> unat max' \<Longrightarrow>
   calls (CountSleeper max') (replicate k Background) c = (replicate k None, c + of_nat k)"
proof (induction k arbitrary: c)
  case 0
  then show ?case by simp
next
  case (Suc k)
  from Suc.prems have below: "unat c < unat max'"
    by simp
  have "unat (c + 1) = Suc (unat c)"
    using below by (rule unat_succ_below)
  then have "unat (c + 1) + k \<le> unat max'"
    using Suc.prems by simp
  then have "calls (CountSleeper max') (replicate k Background) (c + 1)
      = (replicate k None, c + 1 + of_nat k)"
    by (rule Suc.IH)
  with below show ?case
    by (simp add: CountSleeper_live_below add.assoc)
qed

lemma nat_sint_unat:
  fixes w :: go_int
  assumes "0 \<le> sint w"
  shows "nat (sint w) = unat w"
proof -
  have "\<not> bit w 63"
    using assms bit_last_iff [of w] by simp
  then have top: "\<not> bit (uint w) 63"
    by (simp add: bit_uint_iff)
  have "sint w = signed_take_bit 63 (uint w)"
    by (simp add: sint_uint)
  also have "\<dots> = take_bit 63 (uint w)"
    using top by (simp add: signed_take_bit_eq_if_positive)
  also have "\<dots> = take_bit (Suc 63) (uint w)"
    using top take_bit_Suc_from_most [of 63 "uint w"] by simp
  also have "\<dots> = uint w"
    using uint_lt2p [of w] by (simp add: take_bit_int_eq_self)
  finally show ?thesis
    by simp
qed

text \<open>
  C3. For every \<open>max = n \<ge> 0\<close>, a count-bounded sleeper called with a never-canceled
  token returns no error on each of its first \<open>n\<close> calls, and its \<open>(n+1)\<close>-th call
  returns the error \<open>max sleep count\<close>. The count then stands at \<open>max\<close>.
\<close>

theorem CountSleeper_budget:
  assumes "0 \<le> sint max'" and "n = nat (sint max')"
  shows "calls (CountSleeper max') (replicate (n + 1) Background) 0 =
           (replicate n None @ [Some (errors_New ''max sleep count'')], max')"
proof -
  have n: "n = unat max'"
    using assms by (simp add: nat_sint_unat)
  then have "calls (CountSleeper max') (replicate n Background) 0 = (replicate n None, 0 + of_nat n)"
    by (intro CountSleeper_run) simp
  then have first: "calls (CountSleeper max') (replicate n Background) 0 = (replicate n None, max')"
    using n by simp
  have last: "calls (CountSleeper max') [Background] max' =
      ([Some (errors_New ''max sleep count'')], max')"
    by (simp add: CountSleeper_def Background_def)
  have "replicate (n + 1) Background = replicate n Background @ [Background]"
    by (simp add: replicate_append_same)
  then show ?thesis
    by (simp only: calls_append first last prod.case)
qed

theorem CountSleeper_budget_witness:
  "0 \<le> sint (3 :: go_int) \<and>
   calls (CountSleeper 3) [Background, Background, Background, Background] 0 =
     ([None, None, None, Some (errors_New ''max sleep count'')], 3)"
  using CountSleeper_budget [of 3 3] by (simp add: numeral_eq_Suc)

text \<open>
  C10. Called with an already-canceled token, the count-bounded sleeper returns the
  token's error and leaves \<open>count\<close> as it was; so it does when \<open>count\<close> has already
  reached \<open>max\<close>, where a live token would get \<open>max sleep count\<close>.
\<close>

theorem CountSleeper_canceled:
  assumes "Err ctx \<noteq> None"
  shows "CountSleeper max' ctx count = (Err ctx, count) \<and>
         CountSleeper max' ctx max' = (Err ctx, max')"
  using assms by (simp add: CountSleeper_def)

theorem CountSleeper_canceled_witness:
  "Err \<lparr>Err = Some context_Canceled, Done = True\<rparr> \<noteq> None \<and>
   CountSleeper 5 \<lparr>Err = Some context_Canceled, Done = True\<rparr> 2 = (Some context_Canceled, 2) \<and>
   CountSleeper 5 \<lparr>Err = Some context_Canceled, Done = True\<rparr> 5 = (Some context_Canceled, 5)"
  using CountSleeper_canceled [of "\<lparr>Err = Some context_Canceled, Done = True\<rparr>" 5 2] by simp

section \<open>Properties of the backoff-bounded sleeper\<close>

lemma BackoffSleeper_Background:
  "0 < maxInterval \<Longrightarrow>
   BackoffSleeper maxInterval algorithm Background st =
     ((Some (fst (interval_of maxInterval algorithm st)), None),
      \<lparr>init = fst (interval_of maxInterval algorithm st),
       source = snd (interval_of maxInterval algorithm st)\<rparr>)"
  by (simp add: BackoffSleeper_def Background_def split: prod.splits)

lemma interval_of_bounds:
  assumes "\<forall>d g. lo \<le> d \<and> d < maxInterval \<longrightarrow>
             d \<le> fst (algorithm d g) \<and> fst (algorithm d g) \<le> maxInterval"
    and "lo \<le> init st"
  shows "min (init st) maxInterval \<le> fst (interval_of maxInterval algorithm st) \<and>
         fst (interval_of maxInterval algorithm st) \<le> maxInterval"
  using assms by (simp add: interval_of_def)

lemma backoff_trace:
  assumes pos: "0 < maxInterval"
    and alg: "\<forall>d g. lo \<le> d \<and> d < maxInterval \<longrightarrow>
                d \<le> fst (algorithm d g) \<and> fst (algorithm d g) \<le> maxInterval"
    and lo: "lo \<le> maxInterval"
  shows "lo \<le> init st \<Longrightarrow>
         map snd (fst (calls (BackoffSleeper maxInterval algorithm) (replicate n Background) st)) = replicate n None \<and>
         length (waited (fst (calls (BackoffSleeper maxInterval algorithm) (replicate n Background) st))) = n \<and>
         sorted (waited (fst (calls (BackoffSleeper maxInterval algorithm) (replicate n Background) st))) \<and>
         (\<forall>w \<in> set (waited (fst (calls (BackoffSleeper maxInterval algorithm) (replicate n Background) st))).
            min (init st) maxInterval \<le> w \<and> w \<le> maxInterval)"
proof (induction n arbitrary: st)
  case 0
  show ?case by simp
next
  case (Suc n)
  define iv where "iv = fst (interval_of maxInterval algorithm st)"
  define st' where "st' = \<lparr>init = iv, source = snd (interval_of maxInterval algorithm st)\<rparr>"
  define rs where "rs = fst (calls (BackoffSleeper maxInterval algorithm) (replicate n Background) st')"
  have call: "BackoffSleeper maxInterval algorithm Background st = ((Some iv, None), st')"
    using pos by (simp add: BackoffSleeper_Background iv_def st'_def)
  have unfold: "fst (calls (BackoffSleeper maxInterval algorithm) (replicate (Suc n) Background) st)
      = (Some iv, None) # rs"
    by (simp add: call rs_def split: prod.splits)
  have iv: "min (init st) maxInterval \<le> iv" "iv \<le> maxInterval"
    using interval_of_bounds [OF alg Suc.prems] by (simp_all add: iv_def)
  then have "lo \<le> init st'"
    using Suc.prems lo by (simp add: st'_def)
  then have ih: "map snd rs = replicate n None" "length (waited rs) = n" "sorted (waited rs)"
    "\<forall>w \<in> set (waited rs). iv \<le> w \<and> w \<le> maxInterval"
    using Suc.IH [of st'] iv(2) by (simp_all add: rs_def st'_def)
  show ?case
    unfolding unfold using ih iv by auto
qed

text \<open>
  C1, amended. Let \<open>0 < maxInterval\<close> and \<open>init \<le> maxInterval\<close>, and let the algorithm
  map every interval \<open>d\<close> with \<open>init \<le> d < maxInterval\<close> to a value between \<open>d\<close> and
  \<open>maxInterval\<close>. Then \<open>n\<close> calls with a never-canceled token return no error and arm
  \<open>n\<close> timers whose durations are non-decreasing, each at most \<open>maxInterval\<close>, and all
  equal to \<open>maxInterval\<close> from the first that equals it.
\<close>

theorem BackoffSleeper_intervals:
  assumes "0 < maxInterval" and "init st \<le> maxInterval"
    and "\<forall>d g. init st \<le> d \<and> d < maxInterval \<longrightarrow>
           d \<le> fst (algorithm d g) \<and> fst (algorithm d g) \<le> maxInterval"
    and "rs = fst (calls (BackoffSleeper maxInterval algorithm) (replicate n Background) st)"
  shows "map snd rs = replicate n None \<and> length (waited rs) = n \<and>
         sorted (waited rs) \<and>
         (\<forall>w \<in> set (waited rs). w \<le> maxInterval) \<and>
         (\<forall>i j. i \<le> j \<and> j < n \<and> waited rs ! i = maxInterval \<longrightarrow> waited rs ! j = maxInterval)"
proof -
  have tr: "map snd rs = replicate n None" "length (waited rs) = n" "sorted (waited rs)"
    "\<forall>w \<in> set (waited rs). w \<le> maxInterval"
    using backoff_trace [OF assms(1) assms(3) assms(2), of st n] assms(4) by simp_all
  have "waited rs ! j = maxInterval"
    if "i \<le> j" "j < n" "waited rs ! i = maxInterval" for i j
  proof -
    have "waited rs ! i \<le> waited rs ! j"
      using tr(2,3) that by (auto simp: sorted_iff_nth_mono)
    moreover have "waited rs ! j \<le> maxInterval"
      using tr(2,4) that by simp
    ultimately show ?thesis
      using that by simp
  qed
  with tr show ?thesis
    by blast
qed

lemma doubling_upto_trace: "fst (calls (BackoffSleeper 1000 (doubling_upto 1000)) (replicate 5 Background) \<lparr>init = 100, source = ()\<rparr>)
  = [(Some 200, None), (Some 400, None), (Some 800, None), (Some 1000, None), (Some 1000, None)]"
  by (simp add: numeral_eq_Suc BackoffSleeper_def interval_of_def doubling_upto_def Background_def)

theorem BackoffSleeper_intervals_witness:
  "(0::int) < 1000 \<and>
   init \<lparr>init = 100, source = ()\<rparr> \<le> 1000 \<and>
   waited (fst (calls (BackoffSleeper 1000 (doubling_upto 1000))
     (replicate 5 Background) \<lparr>init = 100, source = ()\<rparr>)) = [200, 400, 800, 1000, 1000] \<and>
   sorted (waited (fst (calls (BackoffSleeper 1000 (doubling_upto 1000))
     (replicate 5 Background) \<lparr>init = 100, source = ()\<rparr>)))"
  using BackoffSleeper_intervals [of 1000 "\<lparr>init = 100, source = ()\<rparr>" "doubling_upto 1000" _ 5, OF _ _ _ refl]
  by (simp add: doubling_upto_trace doubling_upto_def)

text \<open>
  C1 as stated, for every algorithm, fails. With \<open>init = 100\<close>, \<open>maxInterval = 150\<close> and
  an algorithm that doubles, the first call waits \<open>200 > 150\<close> (line 197 uses the
  algorithm's value as it is) and the second waits \<open>150\<close>. With an algorithm that
  halves, the waits are \<open>50\<close>, then \<open>25\<close>.
\<close>

theorem BackoffSleeper_intervals_counterexample:
  "(0::int) < 150 \<and> init \<lparr>init = 100, source = ()\<rparr> \<le> 150 \<and>
   waited (fst (calls (BackoffSleeper 150 doubling) [Background, Background]
     \<lparr>init = 100, source = ()\<rparr>)) = [200, 150] \<and>
   \<not> sorted [200, 150 :: int] \<and> \<not> (200 :: int) \<le> 150 \<and>
   waited (fst (calls (BackoffSleeper 150 halving) [Background, Background]
     \<lparr>init = 100, source = ()\<rparr>)) = [50, 25] \<and>
   \<not> sorted [50, 25 :: int]"
  by (simp add: BackoffSleeper_def interval_of_def doubling_def halving_def Background_def)

text \<open>
  C2. The claim is that the interval is clamped to \<open>maxInterval\<close> before it is used and
  before it is stored. With \<open>init = 100\<close>, \<open>maxInterval = 150\<close> and an algorithm that
  doubles, one call that the timer wins arms the timer for \<open>200\<close> and stores \<open>200\<close> in
  \<open>init\<close>: only the \<open>else\<close> branch of lines 196-200 is bounded by \<open>maxInterval\<close>.
\<close>

theorem BackoffSleeper_stores_unclamped:
  "BackoffSleeper 150 doubling Background \<lparr>init = 100, source = ()\<rparr> =
     ((Some 200, None), \<lparr>init = 200, source = ()\<rparr>) \<and> \<not> (200 :: int) \<le> 150"
  by (simp add: BackoffSleeper_def interval_of_def doubling_def Background_def)

text \<open>
  C8. When the \<open>select\<close> of a backoff sleeper runs \<open>case <-ctx.Done()\<close>, the call returns
  \<open>ctx.Err()\<close> and \<open>init\<close>, the stored interval, is what it was before the call. (The
  algorithm has been called by then, so its own state may have moved.)
\<close>

theorem BackoffSleeper_canceled:
  assumes "0 < maxInterval" and "Done ctx"
  shows "snd (fst (BackoffSleeper maxInterval algorithm ctx st)) = Err ctx \<and>
         init (snd (BackoffSleeper maxInterval algorithm ctx st)) = init st"
  using assms by (simp add: BackoffSleeper_def split: prod.splits)

theorem BackoffSleeper_canceled_witness:
  "(0::int) < 150 \<and> Done \<lparr>Err = Some context_Canceled, Done = True\<rparr> \<and>
   BackoffSleeper 150 doubling \<lparr>Err = Some context_Canceled, Done = True\<rparr> \<lparr>init = 50, source = ()\<rparr>
     = ((Some 100, Some context_Canceled), \<lparr>init = 50, source = ()\<rparr>)"
  using BackoffSleeper_canceled [of 150 "\<lparr>Err = Some context_Canceled, Done = True\<rparr>" doubling "\<lparr>init = 50, source = ()\<rparr>"]
  by (simp add: BackoffSleeper_def interval_of_def doubling_def)

text \<open>
  C9. With \<open>maxInterval \<le> 0\<close> every call, whatever the token and the state, returns
  \<open>nil\<close> at once: no timer is created and nothing is changed.
\<close>

theorem BackoffSleeper_wakes_immediately:
  assumes "maxInterval \<le> 0"
  shows "BackoffSleeper maxInterval algorithm ctx st = ((None, None), st)"
  using assms by (simp add: BackoffSleeper_def)

theorem BackoffSleeper_wakes_immediately_witness:
  "(0::int) \<le> 0 \<and>
   BackoffSleeper 0 doubling \<lparr>Err = Some context_Canceled, Done = True\<rparr> \<lparr>init = 0, source = ()\<rparr>
     = ((None, None), \<lparr>init = 0, source = ()\<rparr>) \<and>
   BackoffSleeper (- 5) doubling Background \<lparr>init = 7, source = ()\<rparr>
     = ((None, None), \<lparr>init = 7, source = ()\<rparr>)"
  using BackoffSleeper_wakes_immediately [of 0 doubling "\<lparr>Err = Some context_Canceled, Done = True\<rparr>" "\<lparr>init = 0, source = ()\<rparr>"]
    BackoffSleeper_wakes_immediately [of "- 5" doubling Background "\<lparr>init = 7, source = ()\<rparr>"]
  by simp

section \<open>Properties of the IdleCounter and of cancellation\<close>

text \<open>
  C5. \<open>Done\<close> on a counter with no open job panics: the count goes to \<open>-1\<close> and the test
  \<open>de.job < 0\<close> of line 254 fires.
\<close>

theorem IdleCounter_Done_underflow:
  assumes "job de = 0"
  shows "IdleCounter_Done de = Inl ''all jobs are already done''"
  using assms by (simp add: IdleCounter_Done_def Let_def word_sless_alt)

theorem IdleCounter_Done_underflow_witness:
  "job (NewIdleCounter 1000) = 0 \<and>
   IdleCounter_Done (NewIdleCounter 1000) = Inl ''all jobs are already done''"
  using IdleCounter_Done_underflow [of "NewIdleCounter 1000"]
  by (simp add: NewIdleCounter_def)

lemma step_armed:
  assumes "armed (tmr de) \<longrightarrow> job de = 0" and "step e de = Inr de'"
  shows "armed (tmr de') \<longrightarrow> job de' = 0"
proof (cases e)
  case E_Add
  with assms show ?thesis by (auto simp: IdleCounter_Add_def Let_def)
next
  case E_Done
  with assms show ?thesis
    by (auto simp: IdleCounter_Done_def Let_def word_sless_alt split: if_splits)
next
  case E_Wait_locked
  with assms show ?thesis by (auto simp: Wait_locked_def split: if_splits)
next
  case E_Wait_canceled
  with assms show ?thesis by (auto simp: Wait_canceled_def)
next
  case E_timer_fires
  with assms show ?thesis by (auto simp: timer_fires_def split: Timer.splits)
qed

lemma run_armed:
  "armed (tmr de) \<longrightarrow> job de = 0 \<Longrightarrow> run evs de = Inr de' \<Longrightarrow> armed (tmr de') \<longrightarrow> job de' = 0"
proof (induction evs arbitrary: de)
  case Nil
  then show ?case by simp
next
  case (Cons e evs)
  from Cons.prems(2) obtain de1 where s: "step e de = Inr de1" and r: "run evs de1 = Inr de'"
    by (auto split: sum.splits)
  from Cons.prems(1) s have "armed (tmr de1) \<longrightarrow> job de1 = 0"
    by (rule step_armed)
  then show ?case using r by (rule Cons.IH)
qed

text \<open>
  C7, amended. In every state reached from \<open>NewIdleCounter\<close> without a panic the timer
  is armed only if the job count is zero, and after an \<open>Add\<close> the timer is not armed. The
  converse is not part of the statement: a count of zero does not arm the timer.
\<close>

theorem IdleCounter_armed_only_idle:
  assumes "run evs (NewIdleCounter d) = Inr de"
  shows "(armed (tmr de) \<longrightarrow> job de = 0) \<and> \<not> armed (tmr (IdleCounter_Add de))"
proof -
  have "armed (tmr (NewIdleCounter d)) \<longrightarrow> job (NewIdleCounter d) = 0"
    by (simp add: NewIdleCounter_def)
  then have "armed (tmr de) \<longrightarrow> job de = 0"
    using assms by (rule run_armed)
  then show ?thesis
    by (simp add: IdleCounter_Add_def Let_def)
qed

lemma run_Add_Done:
  "run [E_Add, E_Done] (NewIdleCounter 1000) = Inr \<lparr>job = 0, duration = 1000, tmr = Armed 1000\<rparr>"
  by (simp add: NewIdleCounter_def IdleCounter_Add_def IdleCounter_Done_def Let_def word_sless_alt)

theorem IdleCounter_armed_only_idle_witness:
  "run [E_Add, E_Done] (NewIdleCounter 1000) = Inr \<lparr>job = 0, duration = 1000, tmr = Armed 1000\<rparr> \<and>
   armed (tmr \<lparr>job = 0, duration = 1000, tmr = Armed 1000\<rparr>) \<and>
   job \<lparr>job = 0, duration = 1000, tmr = Armed 1000\<rparr> = 0 \<and>
   \<not> armed (tmr (IdleCounter_Add \<lparr>job = 0, duration = 1000, tmr = Armed 1000\<rparr>))"
  using IdleCounter_armed_only_idle [OF run_Add_Done] run_Add_Done by simp

text \<open>
  C7 as stated fails in the state immediately after construction: the job count is zero
  and the timer, which \<open>NewIdleCounter\<close> stops as soon as it has made it, is not armed.
\<close>

theorem IdleCounter_armed_counterexample:
  "run [] (NewIdleCounter 1000) = Inr (NewIdleCounter 1000) \<and>
   job (NewIdleCounter 1000) = 0 \<and> \<not> armed (tmr (NewIdleCounter 1000))"
  by (simp add: NewIdleCounter_def)

text \<open>
  C6, amended. A count-bounded sleeper called with a canceled token, and a
  backoff-bounded sleeper whose \<open>select\<close> runs \<open>case <-ctx.Done()\<close>, return \<open>ctx.Err()\<close>
  itself. \<open>IdleCounter.Wait\<close> hands no error to its caller: when its \<open>select\<close> runs
  \<open>case <-ctx.Done()\<close> it stops the timer and returns.
\<close>

theorem cancellation_propagated:
  "(Err ctx \<noteq> None \<longrightarrow> fst (CountSleeper max' ctx count) = Err ctx) \<and>
   (0 < maxInterval \<and> Done ctx \<longrightarrow>
      snd (fst (BackoffSleeper maxInterval algorithm ctx st)) = Err ctx) \<and>
   (Done ctx \<longrightarrow> IdleCounter_Wait ctx de = Some ((Wait_locked de)\<lparr>tmr := Stopped\<rparr>))"
  by (simp add: CountSleeper_def BackoffSleeper_def IdleCounter_Wait_def Wait_canceled_def Let_def
      split: prod.splits)

theorem cancellation_propagated_witness:
  "Err \<lparr>Err = Some context_DeadlineExceeded, Done = True\<rparr> \<noteq> None \<and>
   (0::int) < 150 \<and> Done \<lparr>Err = Some context_DeadlineExceeded, Done = True\<rparr> \<and>
   fst (CountSleeper 5 \<lparr>Err = Some context_DeadlineExceeded, Done = True\<rparr> 0)
     = Some context_DeadlineExceeded \<and>
   snd (fst (BackoffSleeper 150 doubling \<lparr>Err = Some context_DeadlineExceeded, Done = True\<rparr>
     \<lparr>init = 50, source = ()\<rparr>)) = Some context_DeadlineExceeded \<and>
   IdleCounter_Wait \<lparr>Err = Some context_DeadlineExceeded, Done = True\<rparr> (NewIdleCounter 1000)
     = Some (NewIdleCounter 1000)"
  using cancellation_propagated [of "\<lparr>Err = Some context_DeadlineExceeded, Done = True\<rparr>"
      5 0 150 doubling "\<lparr>init = 50, source = ()\<rparr>" "NewIdleCounter 1000"]
  by (simp add: NewIdleCounter_def Wait_locked_def)

text \<open>
  C6 as stated fails for \<open>IdleCounter.Wait\<close>: ended by a token whose error is
  \<open>context.Canceled\<close> or by one whose error is \<open>context.DeadlineExceeded\<close>, it returns the
  same, and the error of the token is no part of it.
\<close>

theorem IdleCounter_Wait_swallows_counterexample:
  "Done \<lparr>Err = Some context_Canceled, Done = True\<rparr> \<and>
   Done \<lparr>Err = Some context_DeadlineExceeded, Done = True\<rparr> \<and>
   Err \<lparr>Err = Some context_Canceled, Done = True\<rparr>
     \<noteq> Err \<lparr>Err = Some context_DeadlineExceeded, Done = True\<rparr> \<and>
   IdleCounter_Wait \<lparr>Err = Some context_Canceled, Done = True\<rparr> (NewIdleCounter 1000)
     = Some (NewIdleCounter 1000) \<and>
   IdleCounter_Wait \<lparr>Err = Some context_DeadlineExceeded, Done = True\<rparr> (NewIdleCounter 1000)
     = Some (NewIdleCounter 1000)"
  by (simp add: IdleCounter_Wait_def Wait_locked_def Wait_canceled_def NewIdleCounter_def Let_def)

section \<open>Properties of Retry\<close>

lemma Retry_stop:
  "fn f = ((True, err), f') \<Longrightarrow> Retry ctx s fn st f = Some (err, st, f')"
  by (subst Retry.simps) simp

lemma Retry_sleeper_error:
  "fn f = ((False, err), f') \<Longrightarrow> s ctx st = (Some e, st') \<Longrightarrow>
   Retry ctx s fn st f = Some (Some e, st', f')"
  by (subst Retry.simps) simp

lemma Retry_again:
  "fn f = ((False, err), f') \<Longrightarrow> s ctx st = (None, st') \<Longrightarrow>
   Retry ctx s fn st f = Retry ctx s fn st' f'"
  by (subst Retry.simps) simp

lemma Retry_scenario:
  "Retry Background (counting (CountSleeper 5)) stop_on_third (0, 0) 0 = Some (None, (2, 2), 3)"
proof -
  have a0: "stop_on_third 0 = ((False, None), 1)" and a1: "stop_on_third 1 = ((False, None), 2)"
    and a2: "stop_on_third 2 = ((True, None), 3)"
    by (simp_all add: stop_on_third_def)
  have s0: "counting (CountSleeper 5) Background (0, 0) = (None, (1, 1))"
    and s1: "counting (CountSleeper 5) Background (1, 1) = (None, (2, 2))"
    by (simp_all add: counting_def CountSleeper_def Background_def)
  have "Retry Background (counting (CountSleeper 5)) stop_on_third (0, 0) 0
      = Retry Background (counting (CountSleeper 5)) stop_on_third (1, 1) 1"
    using a0 s0 by (rule Retry_again)
  also have "\<dots> = Retry Background (counting (CountSleeper 5)) stop_on_third (2, 2) 2"
    using a1 s1 by (rule Retry_again)
  also have "\<dots> = Some (None, (2, 2), 3)"
    using a2 by (rule Retry_stop)
  finally show ?thesis .
qed

text \<open>
  C4. One turn of the loop of \<open>Retry\<close>: when the action returns \<open>stop = true\<close>, \<open>Retry\<close>
  returns the action's error as it is and the sleeper is not called (its state is
  returned unchanged); otherwise the sleeper is called, its error, if any, is returned,
  and without an error the loop goes on from the new states. With an action that stops
  on its third invocation and a count-bounded sleeper with \<open>max = 5\<close>, \<open>Retry\<close> returns
  \<open>nil\<close> after 3 invocations of the action and 2 calls of the sleeper.
\<close>

theorem Retry_loop:
  "(fn f = ((True, err), f') \<longrightarrow> Retry ctx s fn st f = Some (err, st, f')) \<and>
   (fn f = ((False, err), f') \<and> s ctx st = (Some e, st') \<longrightarrow>
      Retry ctx s fn st f = Some (Some e, st', f')) \<and>
   (fn f = ((False, err), f') \<and> s ctx st = (None, st') \<longrightarrow>
      Retry ctx s fn st f = Retry ctx s fn st' f') \<and>
   Retry Background (counting (CountSleeper 5)) stop_on_third (0, 0) 0 = Some (None, (2, 2), 3)"
proof (intro conjI impI)
  show "Retry ctx s fn st f = Some (err, st, f')" if "fn f = ((True, err), f')"
    using that by (rule Retry_stop)
  show "Retry ctx s fn st f = Some (Some e, st', f')"
    if "fn f = ((False, err), f') \<and> s ctx st = (Some e, st')"
    using that Retry_sleeper_error [of fn f err f' s ctx st e st'] by simp
  show "Retry ctx s fn st f = Retry ctx s fn st' f'"
    if "fn f = ((False, err), f') \<and> s ctx st = (None, st')"
    using that Retry_again [of fn f err f' s ctx st st'] by simp
  show "Retry Background (counting (CountSleeper 5)) stop_on_third (0, 0) 0 = Some (None, (2, 2), 3)"
    by (rule Retry_scenario)
qed

theorem Retry_loop_witness:
  "stop_on_third 2 = ((True, None), 3) \<and>
   Retry Background (CountSleeper 5) stop_on_third 2 2 = Some (None, 2, 3) \<and>
   stop_on_third 0 = ((False, None), 1) \<and>
   CountSleeper 0 Background 0 = (Some (errors_New ''max sleep count''), 0) \<and>
   Retry Background (CountSleeper 0) stop_on_third 0 0 =
     Some (Some (errors_New ''max sleep count''), 0, 1) \<and>
   CountSleeper 5 Background 0 = (None, 1) \<and>
   Retry Background (CountSleeper 5) stop_on_third 0 0 =
     Retry Background (CountSleeper 5) stop_on_third 1 1"
proof -
  have a2: "stop_on_third 2 = ((True, None), 3)"
    and a0: "stop_on_third 0 = ((False, None), 1)"
    by (simp_all add: stop_on_third_def)
  have c0: "CountSleeper 0 Background 0 = (Some (errors_New ''max sleep count''), 0)"
    and c5: "CountSleeper 5 Background 0 = (None, 1)"
    by (simp_all add: CountSleeper_def Background_def)
  have r1: "Retry Background (CountSleeper 5) stop_on_third 2 2 = Some (None, 2, 3)"
    using a2 by (rule Retry_loop [THEN conjunct1, THEN mp])
  have r2: "Retry Background (CountSleeper 0) stop_on_third 0 0 =
      Some (Some (errors_New ''max sleep count''), 0, 1)"
    using a0 c0 by (intro Retry_loop [THEN conjunct2, THEN conjunct1, THEN mp] conjI)
  have r3: "Retry Background (CountSleeper 5) stop_on_third 0 0 =
      Retry Background (CountSleeper 5) stop_on_third 1 1"
    using a0 c5
    by (intro Retry_loop [THEN conjunct2, THEN conjunct2, THEN conjunct1, THEN mp] conjI)
  from a2 r1 a0 c0 r2 c5 r3 show ?thesis
    by (intro conjI)
qed

end
